theory Spec2Isabelle
  imports Main
begin

section \<open>Dates and times as the Python code uses them\<close>

text \<open>
  The availability engine of the calendar agent lives in two Python files:
  \<^verbatim>\<open>backend/calendar_utils.py\<close> (class \<^verbatim>\<open>GoogleCalendarAPI\<close>) and
  \<^verbatim>\<open>backend/agent.py\<close> (\<^verbatim>\<open>parse_natural_date\<close>). Exceptions are values of
  the type \<open>error\<close>, and a call that may raise returns \<open>error + 'a\<close>.
\<close>

datatype error = ValueError | OverflowError | TypeError | KeyError | HttpError | OtherError

text \<open>
  A \<^verbatim>\<open>datetime\<close> is its wall clock, counted in microseconds as
  \<open>toordinal() * 86400000000 + time of day\<close>, and, when it is timezone-aware, its
  \<^verbatim>\<open>utcoffset()\<close> in microseconds. A naive \<^verbatim>\<open>datetime\<close> has no offset. Python
  accepts the years 1 to 9999, that is the ordinals 1 to 3652059.
\<close>

record aware =
  wall :: int
  utcoffset :: int

datatype datetime = Naive int | Aware aware

definition us_per_second :: int where "us_per_second = 1000000"
definition us_per_minute :: int where "us_per_minute = 60000000"
definition us_per_hour :: int where "us_per_hour = 3600000000"
definition us_per_day :: int where "us_per_day = 86400000000"
definition MAXORDINAL :: int where "MAXORDINAL = 3652059"

definition wall_in_range :: "int \<Rightarrow> bool" where
  "wall_in_range w = (us_per_day \<le> w \<and> w < (MAXORDINAL + 1) * us_per_day)"

text \<open>
  \<^verbatim>\<open>timedelta(minutes=n)\<close>: the value in microseconds; \<^verbatim>\<open>OverflowError\<close> when the
  normalised number of days has a magnitude above 999999999.
\<close>

definition timedelta_minutes :: "int \<Rightarrow> error + int" where
  "timedelta_minutes n =
     (let us = n * us_per_minute; days = us div us_per_day
      in if - 999999999 \<le> days \<and> days \<le> 999999999 then Inr us else Inl OverflowError)"

text \<open>
  \<^verbatim>\<open>dt + delta\<close> on an aware \<^verbatim>\<open>datetime\<close>: the wall clock moves by the delta and the
  \<^verbatim>\<open>tzinfo\<close> object (a pytz zone instance with one fixed offset) is kept;
  \<^verbatim>\<open>OverflowError\<close> when the date leaves the years 1 to 9999.
\<close>

definition dt_add :: "aware \<Rightarrow> int \<Rightarrow> error + aware" where
  "dt_add d delta =
     (let w = wall d + delta
      in if wall_in_range w then Inr (d\<lparr>wall := w\<rparr>) else Inl OverflowError)"

text \<open>
  Two aware \<^verbatim>\<open>datetime\<close>s are compared as instants: wall clock minus offset.
\<close>

definition utc :: "aware \<Rightarrow> int" where
  "utc d = wall d - utcoffset d"

definition dt_lt :: "aware \<Rightarrow> aware \<Rightarrow> bool" where
  "dt_lt a b = (utc a < utc b)"

definition dt_le :: "aware \<Rightarrow> aware \<Rightarrow> bool" where
  "dt_le a b = (utc a \<le> utc b)"

definition dt_gt :: "aware \<Rightarrow> aware \<Rightarrow> bool" where
  "dt_gt a b = (utc a > utc b)"

text \<open>
  A zone (\<^verbatim>\<open>pytz.timezone(config.TIMEZONE)\<close>) is what the code uses of it. For a wall
  clock it gives the offset that \<^verbatim>\<open>localize\<close> attaches (with the default
  \<^verbatim>\<open>is_dst=False\<close>), or the exception that the search for this offset raises: a pytz
  zone with transitions looks at the neighbouring days and moves the wall clock by its
  offset, which is an \<^verbatim>\<open>OverflowError\<close> near the years 1 and 9999; the zone UTC never
  raises. For an instant it gives the offset that \<^verbatim>\<open>astimezone\<close> attaches.
\<close>

record tzinfo =
  local_offset :: "int \<Rightarrow> error + int"
  utc_offset :: "int \<Rightarrow> int"

text \<open>
  \<^verbatim>\<open>tz.localize(dt)\<close>: \<^verbatim>\<open>ValueError\<close> when \<^verbatim>\<open>dt\<close> already has a \<^verbatim>\<open>tzinfo\<close>;
  for a naive \<^verbatim>\<open>dt\<close> the wall clock is kept and the zone's offset attached, or the
  zone's exception raised.
\<close>

fun localize :: "tzinfo \<Rightarrow> datetime \<Rightarrow> error + aware" where
  "localize tz (Naive w) =
     (case local_offset tz w of Inl e \<Rightarrow> Inl e
      | Inr off \<Rightarrow> Inr \<lparr>wall = w, utcoffset = off\<rparr>)"
| "localize tz (Aware d) = Inl ValueError"

text \<open>
  \<^verbatim>\<open>dt.replace(hour=h, minute=0, second=0, microsecond=0)\<close>: the date and the
  \<^verbatim>\<open>tzinfo\<close> are kept; \<^verbatim>\<open>ValueError\<close> when the hour is not in 0..23.
\<close>

definition replace_hour :: "aware \<Rightarrow> int \<Rightarrow> error + aware" where
  "replace_hour d h =
     (if 0 \<le> h \<and> h \<le> 23
      then Inr (d\<lparr>wall := (wall d div us_per_day) * us_per_day + h * us_per_hour\<rparr>)
      else Inl ValueError)"

text \<open>
  \<^verbatim>\<open>dt.astimezone(tz)\<close>: the same instant, read in the zone \<^verbatim>\<open>tz\<close>. A naive
  \<^verbatim>\<open>dt\<close> is taken as a time of the system zone \<open>sys\<close>, and the exception of that
  lookup is raised (a \<^verbatim>\<open>ValueError\<close> on the first day of the year 1, for one).
  \<^verbatim>\<open>OverflowError\<close> when the instant or its new wall clock leaves the years 1 to 9999.
\<close>

definition astimezone :: "tzinfo \<Rightarrow> tzinfo \<Rightarrow> datetime \<Rightarrow> error + aware" where
  "astimezone sys tz dt =
     (case (case dt of
              Naive w \<Rightarrow> (case local_offset sys w of Inl e \<Rightarrow> Inl e
                          | Inr off \<Rightarrow> Inr (w - off))
            | Aware d \<Rightarrow> Inr (utc d)) of Inl e \<Rightarrow> Inl e
      | Inr u \<Rightarrow>
          (let off = utc_offset tz u
           in if wall_in_range u \<and> wall_in_range (u + off)
              then Inr \<lparr>wall = u + off, utcoffset = off\<rparr>
              else Inl OverflowError))"

section \<open>The calendar provider and \<^verbatim>\<open>check_availability\<close>\<close>

text \<open>
  A busy period of the provider's answer is a dictionary with the keys \<^verbatim>\<open>'start'\<close> and
  \<^verbatim>\<open>'end'\<close>. Each text is kept as what
  \<^verbatim>\<open>datetime.fromisoformat(text.replace('Z', '+00:00'))\<close> makes of it: a
  \<^verbatim>\<open>datetime\<close>, or the exception raised (\<^verbatim>\<open>KeyError\<close> for a missing key,
  \<^verbatim>\<open>ValueError\<close> for a text that is no ISO date).
\<close>

record busy_period =
  busy_start_iso :: "error + datetime"
  busy_end_iso :: "error + datetime"

text \<open>
  The provider (\<^verbatim>\<open>self.service.freebusy().query(body=body).execute()\<close> and the lookup
  \<^verbatim>\<open>['calendars'][self.calendar_id]['busy']\<close>) is a parameter: from its state
  \<open>'s\<close> and the two bounds of the query it gives the busy list or an exception, and
  its next state. The bounds stand for \<^verbatim>\<open>timeMin\<close> and \<^verbatim>\<open>timeMax\<close>, the ISO texts of
  the two \<^verbatim>\<open>datetime\<close>s with \<^verbatim>\<open>'Z'\<close> appended. In the same way
  \<^verbatim>\<open>self.service.events().insert(...).execute()\<close> takes the event body and gives the
  five entries that \<^verbatim>\<open>book_event\<close> reads from the created event, or an exception.
\<close>

record event_body =
  body_summary :: string
  body_description :: string
  body_start :: aware
  body_end :: aware
  body_attendees :: "string list option"

record booked_event =
  event_id :: string
  event_title :: string
  event_start_time :: string
  event_end_time :: string
  event_html_link :: string

record 's calendar_api =
  timezone :: tzinfo
  system_zone :: tzinfo
  freebusy_query :: "'s \<Rightarrow> datetime \<Rightarrow> datetime \<Rightarrow> (error + busy_period list) \<times> 's"
  events_insert :: "'s \<Rightarrow> event_body \<Rightarrow> (error + booked_event) \<times> 's"

text \<open>
  \<^verbatim>\<open>check_availability\<close>: one query; the busy list is returned as it came. An
  \<^verbatim>\<open>HttpError\<close> is logged and raised again, any other exception is not caught.
\<close>

definition check_availability ::
  "'s calendar_api \<Rightarrow> 's \<Rightarrow> datetime \<Rightarrow> datetime \<Rightarrow> (error + busy_period list) \<times> 's" where
  "check_availability api s start_date end_date =
     (case freebusy_query api s start_date end_date of
        (Inl e, s') \<Rightarrow> (Inl e, s')
      | (Inr busy_periods, s') \<Rightarrow> (Inr busy_periods, s'))"

section \<open>\<^verbatim>\<open>suggest_available_slots\<close>\<close>

text \<open>
  The test of line 91, \<^verbatim>\<open>current_time < busy_end and slot_end > busy_start\<close>.
\<close>

definition overlaps :: "aware \<Rightarrow> aware \<Rightarrow> aware \<Rightarrow> aware \<Rightarrow> bool" where
  "overlaps current_time slot_end busy_start busy_end =
     (dt_lt current_time busy_end \<and> dt_gt slot_end busy_start)"

text \<open>
  Lines 85 to 89: the two texts of a busy period are parsed, start first, and both
  results are converted to the calendar zone, start first.
\<close>

definition busy_interval :: "'s calendar_api \<Rightarrow> busy_period \<Rightarrow> error + (aware \<times> aware)" where
  "busy_interval api busy_period =
     (case busy_start_iso busy_period of Inl e \<Rightarrow> Inl e
      | Inr bs \<Rightarrow>
     (case busy_end_iso busy_period of Inl e \<Rightarrow> Inl e
      | Inr be \<Rightarrow>
     (case astimezone (system_zone api) (timezone api) bs of Inl e \<Rightarrow> Inl e
      | Inr busy_start \<Rightarrow>
     (case astimezone (system_zone api) (timezone api) be of Inl e \<Rightarrow> Inl e
      | Inr busy_end \<Rightarrow> Inr (busy_start, busy_end)))))"

text \<open>
  The inner \<^verbatim>\<open>for\<close> loop: \<^verbatim>\<open>is_available\<close> starts \<^verbatim>\<open>True\<close>; the first
  overlapping busy period sets it \<^verbatim>\<open>False\<close> and leaves the loop, so the periods after
  it are not parsed.
\<close>

fun is_available :: "'s calendar_api \<Rightarrow> aware \<Rightarrow> aware \<Rightarrow> busy_period list \<Rightarrow> error + bool" where
  "is_available api current_time slot_end [] = Inr True"
| "is_available api current_time slot_end (busy_period # rest) =
     (case busy_interval api busy_period of Inl e \<Rightarrow> Inl e
      | Inr (busy_start, busy_end) \<Rightarrow>
          if overlaps current_time slot_end busy_start busy_end then Inr False
          else is_available api current_time slot_end rest)"

text \<open>
  A slot is the dictionary appended to \<^verbatim>\<open>available_slots\<close>; the two ISO texts are
  kept as the \<^verbatim>\<open>datetime\<close>s they print.
\<close>

record slot =
  start_iso :: aware
  end_iso :: aware
  duration :: int

text \<open>
  The \<^verbatim>\<open>while\<close> loop of lines 80 to 103. Not returning is the value \<open>None\<close>. The
  step is the constant \<^verbatim>\<open>timedelta(minutes=30)\<close>.
\<close>

partial_function (option) slot_loop ::
  "'s calendar_api \<Rightarrow> busy_period list \<Rightarrow> int \<Rightarrow> aware \<Rightarrow> aware \<Rightarrow> slot list
     \<Rightarrow> (error + slot list) option" where
  "slot_loop api busy_periods duration_minutes day_end current_time available_slots =
     (case timedelta_minutes duration_minutes of Inl e \<Rightarrow> Some (Inl e)
      | Inr delta \<Rightarrow>
     (case dt_add current_time delta of Inl e \<Rightarrow> Some (Inl e)
      | Inr slot_end \<Rightarrow>
          if dt_le slot_end day_end then
            (case is_available api current_time slot_end busy_periods of Inl e \<Rightarrow> Some (Inl e)
             | Inr available \<Rightarrow>
            (case timedelta_minutes 30 of Inl e \<Rightarrow> Some (Inl e)
             | Inr step \<Rightarrow>
            (case dt_add current_time step of Inl e \<Rightarrow> Some (Inl e)
             | Inr next_time \<Rightarrow>
                 slot_loop api busy_periods duration_minutes day_end next_time
                   (if available
                    then available_slots @
                      [\<lparr>start_iso = current_time, end_iso = slot_end,
                        duration = duration_minutes\<rparr>]
                    else available_slots))))
          else Some (Inr available_slots)))"

declare slot_loop.simps [code]

text \<open>
  \<^verbatim>\<open>suggest_available_slots\<close>: the target date is localized, the window is cut at
  \<^verbatim>\<open>start_hour\<close> and \<^verbatim>\<open>end_hour\<close>, the busy list is fetched once, and the loop runs.
  The \<^verbatim>\<open>except Exception\<close> clause logs and raises again.
\<close>

definition suggest_available_slots ::
  "'s calendar_api \<Rightarrow> 's \<Rightarrow> datetime \<Rightarrow> int \<Rightarrow> int \<Rightarrow> int
     \<Rightarrow> ((error + slot list) \<times> 's) option" where
  "suggest_available_slots api s target_date duration_minutes start_hour end_hour =
     (case localize (timezone api) target_date of Inl e \<Rightarrow> Some (Inl e, s)
      | Inr target \<Rightarrow>
     (case replace_hour target start_hour of Inl e \<Rightarrow> Some (Inl e, s)
      | Inr day_start \<Rightarrow>
     (case replace_hour target end_hour of Inl e \<Rightarrow> Some (Inl e, s)
      | Inr day_end \<Rightarrow>
     (case check_availability api s (Aware day_start) (Aware day_end) of
        (Inl e, s') \<Rightarrow> Some (Inl e, s')
      | (Inr busy_periods, s') \<Rightarrow>
          map_option (\<lambda>r. (r, s'))
            (slot_loop api busy_periods duration_minutes day_end day_start [])))))"

section \<open>\<^verbatim>\<open>book_event\<close>\<close>

text \<open>
  Lines 124 to 127 attach the calendar zone to a naive start or end and leave an aware
  one as it is. \<^verbatim>\<open>if attendees:\<close> drops both \<^verbatim>\<open>None\<close> and the empty list.
\<close>

definition book_event ::
  "'s calendar_api \<Rightarrow> 's \<Rightarrow> string \<Rightarrow> datetime \<Rightarrow> datetime \<Rightarrow> string \<Rightarrow> string list option
     \<Rightarrow> (error + booked_event) \<times> 's" where
  "book_event api s title start_time end_time description attendees =
     (case (case start_time of Naive w \<Rightarrow> localize (timezone api) start_time
                             | Aware d \<Rightarrow> Inr d) of Inl e \<Rightarrow> (Inl e, s)
      | Inr start_time' \<Rightarrow>
     (case (case end_time of Naive w \<Rightarrow> localize (timezone api) end_time
                           | Aware d \<Rightarrow> Inr d) of Inl e \<Rightarrow> (Inl e, s)
      | Inr end_time' \<Rightarrow>
          events_insert api s
            \<lparr>body_summary = title, body_description = description,
             body_start = start_time', body_end = end_time',
             body_attendees =
               (case attendees of None \<Rightarrow> None | Some [] \<Rightarrow> None
                | Some emails \<Rightarrow> Some emails)\<rparr>))"

section \<open>\<^verbatim>\<open>parse_natural_date\<close>\<close>

text \<open>
  The constructor \<^verbatim>\<open>datetime(year, month, day, hour=0, minute=0, second=0)\<close> with its
  checks, and the day count of the proleptic Gregorian calendar it rests on.
\<close>

definition is_leap :: "int \<Rightarrow> bool" where
  "is_leap year = (year mod 4 = 0 \<and> (year mod 100 \<noteq> 0 \<or> year mod 400 = 0))"

definition days_before_year :: "int \<Rightarrow> int" where
  "days_before_year year =
     (let y = year - 1 in y * 365 + y div 4 - y div 100 + y div 400)"

definition days_in_month :: "int \<Rightarrow> int \<Rightarrow> int" where
  "days_in_month year month =
     (if month = 2 \<and> is_leap year then 29
      else [31, 28, 31, 30, 31, 30, 31, 31, 30, 31, 30, 31] ! nat (month - 1))"

definition days_before_month :: "int \<Rightarrow> int \<Rightarrow> int" where
  "days_before_month year month =
     [0, 31, 59, 90, 120, 151, 181, 212, 243, 273, 304, 334] ! nat (month - 1)
       + (if month > 2 \<and> is_leap year then 1 else 0)"

definition ymd2ord :: "int \<Rightarrow> int \<Rightarrow> int \<Rightarrow> int" where
  "ymd2ord year month day = days_before_year year + days_before_month year month + day"

definition arg_or_zero :: "int list \<Rightarrow> nat \<Rightarrow> int" where
  "arg_or_zero args i = (if i < length args then args ! i else 0)"

fun datetime_new :: "int list \<Rightarrow> error + datetime" where
  "datetime_new (year # month # day # rest) =
     (let hour = arg_or_zero rest 0; minute = arg_or_zero rest 1; second = arg_or_zero rest 2
      in if \<not> (1 \<le> year \<and> year \<le> 9999) then Inl ValueError
         else if \<not> (1 \<le> month \<and> month \<le> 12) then Inl ValueError
         else if \<not> (1 \<le> day \<and> day \<le> days_in_month year month) then Inl ValueError
         else if \<not> (0 \<le> hour \<and> hour \<le> 23) then Inl ValueError
         else if \<not> (0 \<le> minute \<and> minute \<le> 59) then Inl ValueError
         else if \<not> (0 \<le> second \<and> second \<le> 59) then Inl ValueError
         else Inr (Naive (ymd2ord year month day * us_per_day + hour * us_per_hour
                            + minute * us_per_minute + second * us_per_second)))"
| "datetime_new _ = Inl TypeError"

text \<open>
  The two parsers are parameters: \<open>cal_parse\<close> is \<^verbatim>\<open>cal.parse\<close> of parsedatetime,
  giving the time structure and the parse status (0 when nothing was recognised), and
  \<open>parser_parse\<close> is \<^verbatim>\<open>parser.parse\<close> of dateutil. Either may raise. The call of
  \<^verbatim>\<open>parser.parse\<close> for status 0 stands inside the \<^verbatim>\<open>try\<close>, so its exception leads
  to the \<^verbatim>\<open>except\<close> clause, which calls it again.
\<close>

definition parse_natural_date ::
  "(string \<Rightarrow> error + int list \<times> int) \<Rightarrow> (string \<Rightarrow> error + datetime) \<Rightarrow> string
     \<Rightarrow> error + datetime" where
  "parse_natural_date cal_parse parser_parse date_str =
     (case cal_parse date_str of
        Inl e \<Rightarrow> parser_parse date_str
      | Inr (time_struct, parse_status) \<Rightarrow>
          if parse_status = 0
          then (case parser_parse date_str of
                  Inl e \<Rightarrow> parser_parse date_str
                | Inr d \<Rightarrow> Inr d)
          else (case datetime_new (take 6 time_struct) of
                  Inl e \<Rightarrow> parser_parse date_str
                | Inr d \<Rightarrow> Inr d))"

section \<open>Notions of the specification\<close>

text \<open>
  The candidate number \<open>k\<close> of a sweep that starts at \<open>day_start\<close>: it begins
  \<open>k\<close> steps of 30 minutes after \<open>day_start\<close> and lasts \<open>duration_minutes\<close>.
\<close>

definition candidate :: "aware \<Rightarrow> int \<Rightarrow> nat \<Rightarrow> slot" where
  "candidate day_start duration_minutes k =
     \<lparr>start_iso = day_start\<lparr>wall := wall day_start + int k * (30 * us_per_minute)\<rparr>,
      end_iso = day_start\<lparr>wall := wall day_start + int k * (30 * us_per_minute)
                                   + duration_minutes * us_per_minute\<rparr>,
      duration = duration_minutes\<rparr>"

text \<open>
  A candidate is free when the scan of the busy list ends with \<^verbatim>\<open>is_available\<close> still
  \<^verbatim>\<open>True\<close>.
\<close>

definition free :: "'s calendar_api \<Rightarrow> busy_period list \<Rightarrow> slot \<Rightarrow> bool" where
  "free api busy_periods c =
     (is_available api (start_iso c) (end_iso c) busy_periods = Inr True)"

text \<open>
  A \<^verbatim>\<open>datetime\<close> is aware when its \<^verbatim>\<open>tzinfo\<close> is not \<^verbatim>\<open>None\<close>.
\<close>

fun is_aware :: "datetime \<Rightarrow> bool" where
  "is_aware (Naive w) = False"
| "is_aware (Aware d) = True"

text \<open>
  What a \<^verbatim>\<open>datetime\<close> is once the zone is attached: an aware one is itself, a naive
  one keeps its wall clock and takes the offset the zone gives that wall clock.
\<close>

definition made_aware :: "tzinfo \<Rightarrow> datetime \<Rightarrow> aware \<Rightarrow> bool" where
  "made_aware tz dt a =
     (case dt of Aware d \<Rightarrow> a = d
      | Naive w \<Rightarrow> wall a = w \<and> local_offset tz w = Inr (utcoffset a))"

text \<open>
  A busy list is sorted by start time when the converted starts ascend.
\<close>

definition sorted_by_start :: "'s calendar_api \<Rightarrow> busy_period list \<Rightarrow> bool" where
  "sorted_by_start api busy_periods =
     sorted_wrt (\<lambda>p q. case (busy_interval api p, busy_interval api q) of
                          (Inr (a, _), Inr (b, _)) \<Rightarrow> dt_le a b
                        | _ \<Rightarrow> False) busy_periods"

section \<open>Example data\<close>

text \<open>
  The zone UTC, a provider that counts its queries and answers each with a fixed busy
  list or exception, and the window of 15 January 2024 (ordinal 738900).
\<close>

definition utc_zone :: tzinfo where
  "utc_zone = \<lparr>local_offset = (\<lambda>w. Inr 0), utc_offset = (\<lambda>u. 0)\<rparr>"

text \<open>
  A zone five hours west of UTC whose \<^verbatim>\<open>localize\<close> raises \<^verbatim>\<open>OverflowError\<close> when
  the day before or the day after the wall clock, or the wall clock moved to UTC, is no
  date of the years 1 to 9999; and the same provider in that zone. The last hour of the
  year 9999 is the wall clock \<open>last_hour\<close>.
\<close>

definition west_zone :: tzinfo where
  "west_zone =
     \<lparr>local_offset = (\<lambda>w. if wall_in_range (w - us_per_day) \<and> wall_in_range (w + us_per_day)
                               \<and> wall_in_range (w + 5 * us_per_hour)
                            then Inr (- 5 * us_per_hour) else Inl OverflowError),
      utc_offset = (\<lambda>u. - 5 * us_per_hour)\<rparr>"

definition west_api :: "nat calendar_api" where
  "west_api =
     \<lparr>timezone = west_zone, system_zone = utc_zone,
      freebusy_query = (\<lambda>n time_min time_max. (Inr [], Suc n)),
      events_insert = (\<lambda>n body. (Inl HttpError, Suc n))\<rparr>"

definition last_hour :: int where
  "last_hour = MAXORDINAL * us_per_day + 23 * us_per_hour"

definition fixed_api :: "(error + busy_period list) \<Rightarrow> nat calendar_api" where
  "fixed_api answer =
     \<lparr>timezone = utc_zone, system_zone = utc_zone,
      freebusy_query = (\<lambda>n time_min time_max. (answer, Suc n)),
      events_insert = (\<lambda>n body. (Inl HttpError, Suc n))\<rparr>"

definition at_hm :: "int \<Rightarrow> int \<Rightarrow> aware" where
  "at_hm h m = \<lparr>wall = 738900 * us_per_day + h * us_per_hour + m * us_per_minute,
               utcoffset = 0\<rparr>"

definition busy_hm :: "int \<Rightarrow> int \<Rightarrow> int \<Rightarrow> int \<Rightarrow> busy_period" where
  "busy_hm h1 m1 h2 m2 =
     \<lparr>busy_start_iso = Inr (Aware (at_hm h1 m1)), busy_end_iso = Inr (Aware (at_hm h2 m2))\<rparr>"

definition target_day :: datetime where
  "target_day = Naive (738900 * us_per_day)"

section \<open>The slot sweep\<close>

lemma timedelta_30: "timedelta_minutes 30 = Inr (30 * us_per_minute)"
  by (simp add: timedelta_minutes_def us_per_minute_def us_per_day_def)

lemma timedelta_minutes_Inr:
  "timedelta_minutes n = Inr delta \<Longrightarrow> delta = n * us_per_minute"
  by (auto simp: timedelta_minutes_def Let_def split: if_splits)

lemma dt_add_Inr:
  "dt_add d delta = Inr d' \<Longrightarrow> d' = d\<lparr>wall := wall d + delta\<rparr> \<and> wall_in_range (wall d + delta)"
  by (auto simp: dt_add_def Let_def split: if_splits)

lemma slot_loop_returns:
  "\<exists>r. slot_loop api busy_periods duration_minutes day_end current_time available_slots = Some r"
proof (induction "nat ((MAXORDINAL + 1) * us_per_day - wall current_time)"
         arbitrary: current_time available_slots rule: less_induct)
  case less
  have step: "\<exists>r. slot_loop api busy_periods duration_minutes day_end next_time acc = Some r"
    if "dt_add current_time (30 * us_per_minute) = Inr next_time" for next_time acc
  proof -
    from dt_add_Inr [OF that]
    have "wall next_time = wall current_time + 30 * us_per_minute"
      and "wall_in_range (wall current_time + 30 * us_per_minute)" by simp_all
    then have "nat ((MAXORDINAL + 1) * us_per_day - wall next_time)
                 < nat ((MAXORDINAL + 1) * us_per_day - wall current_time)"
      by (simp add: wall_in_range_def us_per_minute_def)
    then show ?thesis by (rule less.hyps)
  qed
  show ?case
    by (subst slot_loop.simps) (simp add: timedelta_30 step split: sum.splits)
qed

lemma candidate_0:
  "candidate cur d 0 =
     \<lparr>start_iso = cur, end_iso = cur\<lparr>wall := wall cur + d * us_per_minute\<rparr>, duration = d\<rparr>"
  by (simp add: candidate_def)

lemma candidate_Suc:
  "candidate (cur\<lparr>wall := wall cur + 30 * us_per_minute\<rparr>) d k = candidate cur d (Suc k)"
  by (simp add: candidate_def algebra_simps)

lemma candidate_shift:
  "candidate (cur\<lparr>wall := wall cur + 30 * us_per_minute\<rparr>) d = (\<lambda>k. candidate cur d (Suc k))"
  by (rule ext) (rule candidate_Suc)

lemma slot_loop_result:
  "slot_loop api busy d day_end cur acc = Some (Inr slots) \<Longrightarrow>
   \<exists>n. slots = acc @ filter (free api busy) (map (candidate cur d) [0..<n])
     \<and> (\<forall>k<n. dt_le (end_iso (candidate cur d k)) day_end)
     \<and> \<not> dt_le (end_iso (candidate cur d n)) day_end"
proof (induction "nat ((MAXORDINAL + 1) * us_per_day - wall cur)"
         arbitrary: cur acc rule: less_induct)
  case less
  let ?P = "\<lambda>cur acc n. slots = acc @ filter (free api busy) (map (candidate cur d) [0..<n])
     \<and> (\<forall>k<n. dt_le (end_iso (candidate cur d k)) day_end)
     \<and> \<not> dt_le (end_iso (candidate cur d n)) day_end"
  from less.prems obtain delta slot_end where
    td: "timedelta_minutes d = Inr delta" and se: "dt_add cur delta = Inr slot_end"
    by (subst (asm) slot_loop.simps) (auto split: sum.splits)
  have se_eq: "slot_end = end_iso (candidate cur d 0)"
    using dt_add_Inr [OF se] timedelta_minutes_Inr [OF td] by (simp add: candidate_0)
  show ?case
  proof (cases "dt_le slot_end day_end")
    case False
    with less.prems td se have "slots = acc"
      by (subst (asm) slot_loop.simps) simp
    with False se_eq have "?P cur acc 0" by simp
    then show ?thesis ..
  next
    case True
    with less.prems td se obtain available next_time where
      av: "is_available api cur slot_end busy = Inr available" and
      nx: "dt_add cur (30 * us_per_minute) = Inr next_time" and
      rec: "slot_loop api busy d day_end next_time
              (if available then acc @ [\<lparr>start_iso = cur, end_iso = slot_end, duration = d\<rparr>]
               else acc) = Some (Inr slots)"
      by (subst (asm) slot_loop.simps) (auto simp: timedelta_30 split: sum.splits)
    from dt_add_Inr [OF nx]
    have nt: "next_time = cur\<lparr>wall := wall cur + 30 * us_per_minute\<rparr>"
      and "wall_in_range (wall cur + 30 * us_per_minute)" by simp_all
    then have "nat ((MAXORDINAL + 1) * us_per_day - wall next_time)
                 < nat ((MAXORDINAL + 1) * us_per_day - wall cur)"
      by (simp add: wall_in_range_def us_per_minute_def)
    from less.hyps [OF this rec] obtain n where
      n: "?P next_time
            (if available then acc @ [\<lparr>start_iso = cur, end_iso = slot_end, duration = d\<rparr>]
             else acc) n" ..
    have c0: "candidate cur d 0 = \<lparr>start_iso = cur, end_iso = slot_end, duration = d\<rparr>"
      using se_eq by (simp add: candidate_0)
    have fr: "free api busy (candidate cur d 0) = available"
      using av by (simp add: free_def c0)
    have "?P cur acc (Suc n)"
    proof (intro conjI allI impI)
      show "slots = acc @ filter (free api busy) (map (candidate cur d) [0..<Suc n])"
        using n fr by (simp add: map_upt_Suc nt candidate_shift c0 del: upt_Suc)
      show "dt_le (end_iso (candidate cur d k)) day_end" if "k < Suc n" for k
      proof (cases k)
        case 0
        with True se_eq show ?thesis by simp
      next
        case (Suc j)
        with that n show ?thesis by (simp add: nt candidate_Suc)
      qed
      show "\<not> dt_le (end_iso (candidate cur d (Suc n))) day_end"
        using n by (simp add: nt candidate_Suc)
    qed
    then show ?thesis ..
  qed
qed

lemma is_available_True:
  "is_available api c e busy = Inr True \<Longrightarrow> bp \<in> set busy \<Longrightarrow>
   \<exists>bs be. busy_interval api bp = Inr (bs, be) \<and> \<not> overlaps c e bs be"
  by (induction busy) (auto split: sum.splits if_splits prod.splits)

lemma suggest_Inr:
  assumes "suggest_available_slots api s target_date d start_hour end_hour = Some (Inr slots, s')"
  obtains target day_start day_end busy_periods where
    "localize (timezone api) target_date = Inr target"
    "replace_hour target start_hour = Inr day_start"
    "replace_hour target end_hour = Inr day_end"
    "freebusy_query api s (Aware day_start) (Aware day_end) = (Inr busy_periods, s')"
    "slot_loop api busy_periods d day_end day_start [] = Some (Inr slots)"
  using assms
  by (auto simp: suggest_available_slots_def check_availability_def
           split: sum.splits prod.splits)

lemma utc_candidate_start:
  "utc (start_iso (candidate ds d k)) = utc ds + int k * (30 * us_per_minute)"
  by (simp add: candidate_def utc_def)

lemma utc_candidate_end:
  "utc (end_iso (candidate ds d k)) = utc ds + int k * (30 * us_per_minute) + d * us_per_minute"
  by (simp add: candidate_def utc_def)

lemma duration_candidate: "duration (candidate ds d k) = d"
  by (simp add: candidate_def)

lemma slot_is_candidate:
  assumes "slot_loop api busy d day_end day_start [] = Some (Inr slots)" and "sl \<in> set slots"
  shows "\<exists>k. sl = candidate day_start d k \<and> free api busy sl
           \<and> dt_le (end_iso (candidate day_start d k)) day_end"
proof -
  from slot_loop_result [OF assms(1)] obtain n where
    n: "slots = filter (free api busy) (map (candidate day_start d) [0..<n])"
       "\<forall>k<n. dt_le (end_iso (candidate day_start d k)) day_end"
    by auto
  from assms(2) n(1) obtain k where "k < n" "sl = candidate day_start d k" "free api busy sl"
    by auto
  with n(2) show ?thesis by blast
qed

text \<open>
  Claim C10. The candidate loop of \<^verbatim>\<open>suggest_available_slots\<close> returns for every busy
  list, every integer duration (zero and negative ones too), every window end and every
  starting time, and so does \<^verbatim>\<open>suggest_available_slots\<close> for every target date: each
  pass moves the candidate start 30 minutes on, and a date beyond the year 9999 raises
  \<^verbatim>\<open>OverflowError\<close>.
\<close>

theorem slot_sweep_terminates:
  "(\<exists>r. slot_loop api busy_periods duration_minutes day_end current_time available_slots = Some r)
   \<and> (\<exists>r. suggest_available_slots api s target_date duration_minutes start_hour end_hour = Some r)"
proof
  show "\<exists>r. slot_loop api busy_periods duration_minutes day_end current_time available_slots = Some r"
    by (rule slot_loop_returns)
  show "\<exists>r. suggest_available_slots api s target_date duration_minutes start_hour end_hour = Some r"
  proof -
    have "\<exists>r. map_option (\<lambda>r. (r, s')) (slot_loop api bs duration_minutes e b []) = Some r"
      for s' :: 'a and bs e b
      using slot_loop_returns [of api bs duration_minutes e b "[]"] by auto
    then show ?thesis
      by (simp add: suggest_available_slots_def split: sum.splits prod.splits)
  qed
qed

text \<open>
  Claim C3. The overlap test between a candidate \<open>[a, b)\<close> and a busy interval
  \<open>[c, d)\<close> holds exactly when \<open>a < d\<close> and \<open>c < b\<close>; it is symmetric; and an
  interval that ends exactly where the other starts does not overlap it.
\<close>

theorem overlap_half_open:
  "overlaps a b c d = (utc a < utc d \<and> utc c < utc b)
   \<and> overlaps a b c d = overlaps c d a b
   \<and> (utc b = utc c \<longrightarrow> \<not> overlaps a b c d \<and> \<not> overlaps c d a b)"
  by (auto simp: overlaps_def dt_lt_def dt_gt_def)

theorem overlap_half_open_witness:
  "utc (at_hm 10 0) = utc (at_hm 10 0)
   \<and> \<not> overlaps (at_hm 9 0) (at_hm 10 0) (at_hm 10 0) (at_hm 11 0)
   \<and> \<not> overlaps (at_hm 10 0) (at_hm 11 0) (at_hm 9 0) (at_hm 10 0)
   \<and> overlaps (at_hm 9 0) (at_hm 10 30) (at_hm 10 0) (at_hm 11 0)"
proof -
  have "overlaps (at_hm 9 0) (at_hm 10 30) (at_hm 10 0) (at_hm 11 0)" by code_simp
  then show ?thesis
    using overlap_half_open [of "at_hm 9 0" "at_hm 10 0" "at_hm 10 0" "at_hm 11 0"] by simp
qed

text \<open>
  Claim C1. Slot freedom: when \<^verbatim>\<open>suggest_available_slots\<close> returns slots, the busy
  list came from the one query made for the window, and every returned slot overlaps no
  interval of that list, each interval being converted to the calendar zone.
\<close>

theorem slot_freedom:
  assumes "suggest_available_slots api s target_date duration_minutes start_hour end_hour
             = Some (Inr slots, s')"
  shows "\<exists>target day_start day_end busy_periods.
           localize (timezone api) target_date = Inr target
         \<and> replace_hour target start_hour = Inr day_start
         \<and> replace_hour target end_hour = Inr day_end
         \<and> freebusy_query api s (Aware day_start) (Aware day_end) = (Inr busy_periods, s')
         \<and> (\<forall>sl \<in> set slots. \<forall>bp \<in> set busy_periods.
               \<exists>busy_start busy_end. busy_interval api bp = Inr (busy_start, busy_end)
                  \<and> \<not> overlaps (start_iso sl) (end_iso sl) busy_start busy_end)"
proof -
  from assms obtain target day_start day_end busy_periods where
    h: "localize (timezone api) target_date = Inr target"
       "replace_hour target start_hour = Inr day_start"
       "replace_hour target end_hour = Inr day_end"
       "freebusy_query api s (Aware day_start) (Aware day_end) = (Inr busy_periods, s')"
    and loop: "slot_loop api busy_periods duration_minutes day_end day_start [] = Some (Inr slots)"
    by (rule suggest_Inr)
  have "\<exists>busy_start busy_end. busy_interval api bp = Inr (busy_start, busy_end)
          \<and> \<not> overlaps (start_iso sl) (end_iso sl) busy_start busy_end"
    if "sl \<in> set slots" "bp \<in> set busy_periods" for sl bp
  proof -
    from slot_is_candidate [OF loop that(1)] have "free api busy_periods sl" by blast
    then show ?thesis using that(2) by (auto simp: free_def dest: is_available_True)
  qed
  with h show ?thesis by blast
qed

theorem slot_freedom_witness:
  "suggest_available_slots (fixed_api (Inr [busy_hm 10 0 10 30])) 0 target_day 60 9 11
     = Some (Inr [candidate (at_hm 9 0) 60 0], 1)
   \<and> (\<exists>busy_start busy_end.
         busy_interval (fixed_api (Inr [busy_hm 10 0 10 30])) (busy_hm 10 0 10 30)
           = Inr (busy_start, busy_end)
       \<and> \<not> overlaps (start_iso (candidate (at_hm 9 0) 60 0)) (end_iso (candidate (at_hm 9 0) 60 0))
             busy_start busy_end)"
proof -
  have h: "suggest_available_slots (fixed_api (Inr [busy_hm 10 0 10 30])) 0 target_day 60 9 11
     = Some (Inr [candidate (at_hm 9 0) 60 0], 1)"
    by code_simp
  have q: "freebusy_query (fixed_api (Inr [busy_hm 10 0 10 30])) 0 a b
             = (Inr [busy_hm 10 0 10 30], 1)" for a b
    by (simp add: fixed_api_def)
  from slot_freedom [OF h] show ?thesis using h by (auto simp: q)
qed

text \<open>
  Claim C2. Slot containment: every returned slot starts at or after the window start,
  ends at or before the window end, and has the full requested length: no slot is cut short.
\<close>

theorem slot_containment:
  assumes "suggest_available_slots api s target_date duration_minutes start_hour end_hour
             = Some (Inr slots, s')"
  shows "\<exists>target day_start day_end.
           localize (timezone api) target_date = Inr target
         \<and> replace_hour target start_hour = Inr day_start
         \<and> replace_hour target end_hour = Inr day_end
         \<and> (\<forall>sl \<in> set slots.
               dt_le day_start (start_iso sl) \<and> dt_le (end_iso sl) day_end
             \<and> utc (end_iso sl) - utc (start_iso sl) = duration_minutes * us_per_minute
             \<and> duration sl = duration_minutes)"
proof -
  from assms obtain target day_start day_end busy_periods where
    h: "localize (timezone api) target_date = Inr target"
       "replace_hour target start_hour = Inr day_start"
       "replace_hour target end_hour = Inr day_end"
    and loop: "slot_loop api busy_periods duration_minutes day_end day_start [] = Some (Inr slots)"
    by (rule suggest_Inr)
  have "dt_le day_start (start_iso sl) \<and> dt_le (end_iso sl) day_end
      \<and> utc (end_iso sl) - utc (start_iso sl) = duration_minutes * us_per_minute
      \<and> duration sl = duration_minutes" if "sl \<in> set slots" for sl
  proof -
    from slot_is_candidate [OF loop that] obtain k where
      k: "sl = candidate day_start duration_minutes k" "dt_le (end_iso sl) day_end"
      by blast
    have "0 \<le> int k * (30 * us_per_minute)" by (simp add: us_per_minute_def)
    then have "dt_le day_start (start_iso sl)"
      by (simp add: k(1) dt_le_def utc_candidate_start)
    with k show ?thesis
      by (simp add: utc_candidate_start utc_candidate_end duration_candidate)
  qed
  with h show ?thesis by blast
qed

theorem slot_containment_witness:
  "suggest_available_slots (fixed_api (Inr [busy_hm 9 30 10 0])) 0 target_day 45 9 11
     = Some (Inr [candidate (at_hm 9 0) 45 2], 1)
   \<and> dt_le (at_hm 9 0) (start_iso (candidate (at_hm 9 0) 45 2))
   \<and> dt_le (end_iso (candidate (at_hm 9 0) 45 2)) (at_hm 11 0)
   \<and> utc (end_iso (candidate (at_hm 9 0) 45 2)) - utc (start_iso (candidate (at_hm 9 0) 45 2))
       = 45 * us_per_minute"
proof -
  have h: "suggest_available_slots (fixed_api (Inr [busy_hm 9 30 10 0])) 0 target_day 45 9 11
     = Some (Inr [candidate (at_hm 9 0) 45 2], 1)"
    by code_simp
  have l: "localize (timezone (fixed_api (Inr [busy_hm 9 30 10 0]))) target_day = Inr (at_hm 0 0)"
    by code_simp
  have r: "replace_hour (at_hm 0 0) 9 = Inr (at_hm 9 0)" "replace_hour (at_hm 0 0) 11 = Inr (at_hm 11 0)"
    by code_simp+
  from slot_containment [OF h] show ?thesis using h by (auto simp: l r)
qed

lemma replace_hour_Inr:
  "replace_hour d h = Inr d' \<Longrightarrow>
     0 \<le> h \<and> h \<le> 23 \<and> d' = d\<lparr>wall := (wall d div us_per_day) * us_per_day + h * us_per_hour\<rparr>"
  by (auto simp: replace_hour_def split: if_splits)

lemma window_length:
  assumes "replace_hour target start_hour = Inr day_start"
    and "replace_hour target end_hour = Inr day_end"
  shows "utc day_end - utc day_start = (end_hour - start_hour) * us_per_hour"
  using replace_hour_Inr [OF assms(1)] replace_hour_Inr [OF assms(2)]
  by (simp add: utc_def algebra_simps)

lemma candidates_sorted:
  "sorted_wrt (\<lambda>a b. dt_lt (start_iso a) (start_iso b))
     (filter P (map (candidate ds d) [0..<n]))"
proof -
  have "sorted_wrt (\<lambda>a b. dt_lt (start_iso a) (start_iso b)) (map (candidate ds d) [0..<n])"
  proof (rule sorted_wrt_map_mono [OF sorted_wrt_upt])
    fix i j :: nat
    assume "i < j"
    then have "int i * (30 * us_per_minute) < int j * (30 * us_per_minute)"
      by (simp add: us_per_minute_def)
    then show "dt_lt (start_iso (candidate ds d i)) (start_iso (candidate ds d j))"
      by (simp add: dt_lt_def utc_candidate_start)
  qed
  then show ?thesis by (rule sorted_wrt_filter)
qed

lemma sweep_count_bound:
  assumes len: "utc day_end - utc day_start = (end_hour - start_hour) * us_per_hour"
    and d: "1 \<le> d" and w: "start_hour \<le> end_hour"
    and n: "\<forall>k<n. dt_le (end_iso (candidate day_start d k)) day_end"
  shows "int n \<le> (utc day_end - utc day_start) div (30 * us_per_minute)"
proof -
  have dv: "(utc day_end - utc day_start) div (30 * us_per_minute) = 2 * (end_hour - start_hour)"
    by (simp add: len us_per_hour_def us_per_minute_def)
  show ?thesis
  proof (cases n)
    case 0
    with w dv show ?thesis by simp
  next
    case (Suc m)
    with n have "dt_le (end_iso (candidate day_start d m)) day_end" by simp
    then have "int m * (30 * us_per_minute) + d * us_per_minute
                 \<le> (end_hour - start_hour) * us_per_hour"
      using len by (simp add: dt_le_def utc_candidate_end)
    with d have "int m * 1800000000 < (end_hour - start_hour) * 3600000000"
      by (simp add: us_per_minute_def us_per_hour_def)
    then have "int m < 2 * (end_hour - start_hour)" by simp
    with Suc dv show ?thesis by simp
  qed
qed

text \<open>
  Claim C4, as amended. The sweep enumerates the candidates that start at the window
  start and follow each other at the fixed step of 30 minutes, each as long as the
  requested duration, up to the first candidate that ends after the window end; the
  free ones are returned in chronological order. For a duration of at least one minute
  and a window whose end hour is not before its start hour, their number is at most the
  window length divided by 30 minutes.
\<close>

theorem candidate_enumeration:
  assumes "suggest_available_slots api s target_date duration_minutes start_hour end_hour
             = Some (Inr slots, s')"
  shows "\<exists>target day_start day_end busy_periods n.
           localize (timezone api) target_date = Inr target
         \<and> replace_hour target start_hour = Inr day_start
         \<and> replace_hour target end_hour = Inr day_end
         \<and> freebusy_query api s (Aware day_start) (Aware day_end) = (Inr busy_periods, s')
         \<and> slots = filter (free api busy_periods)
                     (map (candidate day_start duration_minutes) [0..<n])
         \<and> (\<forall>k<n. dt_le (end_iso (candidate day_start duration_minutes k)) day_end)
         \<and> \<not> dt_le (end_iso (candidate day_start duration_minutes n)) day_end
         \<and> sorted_wrt (\<lambda>a b. dt_lt (start_iso a) (start_iso b)) slots
         \<and> (1 \<le> duration_minutes \<and> start_hour \<le> end_hour \<longrightarrow>
              int (length slots) \<le> (utc day_end - utc day_start) div (30 * us_per_minute))"
proof -
  from assms obtain target day_start day_end busy_periods where
    h: "localize (timezone api) target_date = Inr target"
       "replace_hour target start_hour = Inr day_start"
       "replace_hour target end_hour = Inr day_end"
       "freebusy_query api s (Aware day_start) (Aware day_end) = (Inr busy_periods, s')"
    and loop: "slot_loop api busy_periods duration_minutes day_end day_start [] = Some (Inr slots)"
    by (rule suggest_Inr)
  from slot_loop_result [OF loop] obtain n where
    n: "slots = filter (free api busy_periods) (map (candidate day_start duration_minutes) [0..<n])"
       "\<forall>k<n. dt_le (end_iso (candidate day_start duration_minutes k)) day_end"
       "\<not> dt_le (end_iso (candidate day_start duration_minutes n)) day_end"
    by auto
  have srt: "sorted_wrt (\<lambda>a b. dt_lt (start_iso a) (start_iso b)) slots"
    unfolding n(1) by (rule candidates_sorted)
  have bound: "int (length slots) \<le> (utc day_end - utc day_start) div (30 * us_per_minute)"
    if "1 \<le> duration_minutes" "start_hour \<le> end_hour"
  proof -
    have "length slots \<le> n"
      unfolding n(1) using length_filter_le [of "free api busy_periods"
        "map (candidate day_start duration_minutes) [0..<n]"] by simp
    moreover have "int n \<le> (utc day_end - utc day_start) div (30 * us_per_minute)"
      using window_length [OF h(2) h(3)] that n(2) by (rule sweep_count_bound)
    ultimately show ?thesis by linarith
  qed
  from h n srt bound show ?thesis by blast
qed

theorem candidate_enumeration_witness:
  "suggest_available_slots (fixed_api (Inr [busy_hm 10 0 10 30])) 0 target_day 60 9 12
     = Some (Inr [candidate (at_hm 9 0) 60 0, candidate (at_hm 9 0) 60 3,
                  candidate (at_hm 9 0) 60 4], 1)
   \<and> sorted_wrt (\<lambda>a b. dt_lt (start_iso a) (start_iso b))
        [candidate (at_hm 9 0) 60 0, candidate (at_hm 9 0) 60 3, candidate (at_hm 9 0) 60 4]
   \<and> (1::int) \<le> 60 \<and> (9::int) \<le> 12
   \<and> int (length [candidate (at_hm 9 0) 60 0, candidate (at_hm 9 0) 60 3,
                    candidate (at_hm 9 0) 60 4])
        \<le> (utc (at_hm 12 0) - utc (at_hm 9 0)) div (30 * us_per_minute)"
proof -
  have h: "suggest_available_slots (fixed_api (Inr [busy_hm 10 0 10 30])) 0 target_day 60 9 12
     = Some (Inr [candidate (at_hm 9 0) 60 0, candidate (at_hm 9 0) 60 3,
                  candidate (at_hm 9 0) 60 4], 1)"
    by code_simp
  have l: "localize (timezone (fixed_api (Inr [busy_hm 10 0 10 30]))) target_day = Inr (at_hm 0 0)"
    by code_simp
  have r: "replace_hour (at_hm 0 0) 9 = Inr (at_hm 9 0)"
    "replace_hour (at_hm 0 0) 12 = Inr (at_hm 12 0)"
    by code_simp+
  from candidate_enumeration [OF h] show ?thesis using h by (auto simp: l r)
qed

text \<open>
  The bound of C4 fails for the duration 0: on the window 09:00 to 17:00 with no busy
  period the sweep returns 17 slots, one more than the 16 half hours of the window.
\<close>

theorem zero_duration_bound_counterexample:
  "suggest_available_slots (fixed_api (Inr [])) 0 target_day 0 9 17
     = Some (Inr (map (candidate (at_hm 9 0) 0) [0..<17]), 1)
   \<and> \<not> int (length (map (candidate (at_hm 9 0) 0) [0..<17]))
         \<le> (utc (at_hm 17 0) - utc (at_hm 9 0)) div (30 * us_per_minute)"
  by code_simp

lemma dt_add_in_range:
  "wall_in_range (wall d + delta) \<Longrightarrow> dt_add d delta = Inr (d\<lparr>wall := wall d + delta\<rparr>)"
  by (simp add: dt_add_def)

lemma slot_loop_free_day:
  assumes td: "timedelta_minutes d = Inr (d * us_per_minute)"
  shows "(\<forall>k<n. dt_le (end_iso (candidate cur d k)) day_end) \<Longrightarrow>
         \<not> dt_le (end_iso (candidate cur d n)) day_end \<Longrightarrow>
         (\<forall>k\<le>n. wall_in_range (wall (end_iso (candidate cur d k)))) \<Longrightarrow>
         (\<forall>k\<le>n. wall_in_range (wall (start_iso (candidate cur d k)))) \<Longrightarrow>
         slot_loop api [] d day_end cur acc
           = Some (Inr (acc @ map (candidate cur d) [0..<n]))"
proof (induction n arbitrary: cur acc)
  case 0
  then have "wall_in_range (wall cur + d * us_per_minute)" and
    "\<not> dt_le (cur\<lparr>wall := wall cur + d * us_per_minute\<rparr>) day_end"
    by (simp_all add: candidate_0)
  then show ?case
    by (subst slot_loop.simps) (simp add: td dt_add_in_range)
next
  case (Suc n)
  let ?next = "cur\<lparr>wall := wall cur + 30 * us_per_minute\<rparr>"
  from Suc.prems(3) [rule_format, of 0] Suc.prems(1) [rule_format, of 0]
  have e0: "wall_in_range (wall cur + d * us_per_minute)"
    "dt_le (cur\<lparr>wall := wall cur + d * us_per_minute\<rparr>) day_end"
    by (simp_all add: candidate_0)
  from Suc.prems(4) [rule_format, of 1]
  have s1: "wall_in_range (wall cur + 30 * us_per_minute)"
    by (simp add: candidate_def)
  have "slot_loop api [] d day_end ?next (acc @ [candidate cur d 0])
          = Some (Inr ((acc @ [candidate cur d 0]) @ map (candidate ?next d) [0..<n]))"
  proof (rule Suc.IH)
    show "\<forall>k<n. dt_le (end_iso (candidate ?next d k)) day_end"
      using Suc.prems(1) by (simp add: candidate_Suc)
    show "\<not> dt_le (end_iso (candidate ?next d n)) day_end"
      using Suc.prems(2) by (simp add: candidate_Suc)
    show "\<forall>k\<le>n. wall_in_range (wall (end_iso (candidate ?next d k)))"
      using Suc.prems(3) by (simp add: candidate_Suc)
    show "\<forall>k\<le>n. wall_in_range (wall (start_iso (candidate ?next d k)))"
      using Suc.prems(4) by (simp add: candidate_Suc)
  qed
  then show ?case
    by (subst slot_loop.simps)
       (simp add: td timedelta_30 dt_add_in_range e0 s1 candidate_0 map_upt_Suc candidate_shift
             del: upt_Suc)
qed

lemma day_bounds:
  assumes "wall_in_range w" and "0 \<le> x" and "x < us_per_day"
  shows "wall_in_range ((w div us_per_day) * us_per_day + x)"
proof -
  from assms(1) have "1 \<le> w div us_per_day" and "w div us_per_day \<le> MAXORDINAL"
    by (simp_all add: wall_in_range_def us_per_day_def MAXORDINAL_def) linarith+
  then have "us_per_day \<le> (w div us_per_day) * us_per_day"
    and "(w div us_per_day) * us_per_day + us_per_day \<le> (MAXORDINAL + 1) * us_per_day"
    by (simp_all add: us_per_day_def MAXORDINAL_def)
  with assms(2,3) show ?thesis
    unfolding wall_in_range_def by linarith
qed

text \<open>
  C5 as stated fails: with a duration of 60 minutes, the window 09:00 to 17:00 and no
  busy period the sweep returns 15 slots, not 7; the second one is 09:30 to 10:30.
\<close>

theorem fifteen_slots_on_a_free_day_counterexample:
  "suggest_available_slots (fixed_api (Inr [])) 0 target_day 60 9 17
     = Some (Inr (map (candidate (at_hm 9 0) 60) [0..<15]), 1)
   \<and> length (map (candidate (at_hm 9 0) 60) [0..<15]) \<noteq> 7
   \<and> candidate (at_hm 9 0) 60 1
       = \<lparr>start_iso = at_hm 9 30, end_iso = at_hm 10 30, duration = 60\<rparr>"
  by code_simp

text \<open>
  Claim C5, as amended. On a day without busy periods, a duration of 60 minutes and the
  window 09:00 to 17:00 give exactly 15 slots, half an hour apart: the first starts at
  09:00 and ends at 10:00, the second starts at 09:30, and the last starts at 16:00 and
  ends at 17:00, the window end.
\<close>

theorem free_day_sweep:
  assumes "wall_in_range w"
    and "localize (timezone api) (Naive w) = Inr target"
    and "replace_hour target 9 = Inr day_start"
    and "replace_hour target 17 = Inr day_end"
    and "freebusy_query api s (Aware day_start) (Aware day_end) = (Inr [], s')"
  shows "suggest_available_slots api s (Naive w) 60 9 17
           = Some (Inr (map (candidate day_start 60) [0..<15]), s')
       \<and> length (map (candidate day_start 60) [0..<15]) = 15
       \<and> start_iso (candidate day_start 60 0) = day_start
       \<and> utc (end_iso (candidate day_start 60 0)) = utc day_start + 60 * us_per_minute
       \<and> utc (start_iso (candidate day_start 60 1)) = utc day_start + 30 * us_per_minute
       \<and> utc (start_iso (candidate day_start 60 14)) = utc day_end - 60 * us_per_minute
       \<and> utc (end_iso (candidate day_start 60 14)) = utc day_end"
proof -
  from assms(2) have tw: "wall target = w" by (auto split: sum.splits)
  from replace_hour_Inr [OF assms(3)] replace_hour_Inr [OF assms(4)] tw
  have ds: "wall day_start = (w div us_per_day) * us_per_day + 9 * us_per_hour"
    and de: "wall day_end = (w div us_per_day) * us_per_day + 17 * us_per_hour"
    and off: "utcoffset day_end = utcoffset day_start"
    by simp_all
  have td: "timedelta_minutes 60 = Inr (60 * us_per_minute)"
    by (simp add: timedelta_minutes_def us_per_minute_def us_per_day_def)
  have rng: "wall_in_range (wall day_start + x)" if "0 \<le> x" "x < 15 * us_per_hour" for x
  proof -
    have "wall_in_range ((w div us_per_day) * us_per_day + (9 * us_per_hour + x))"
      using assms(1) that by (intro day_bounds) (simp_all add: us_per_hour_def us_per_day_def)
    then show ?thesis by (simp add: ds add.assoc)
  qed
  have loop: "slot_loop api [] 60 day_end day_start []
                = Some (Inr ([] @ map (candidate day_start 60) [0..<15]))"
  proof (rule slot_loop_free_day [OF td], intro allI impI)
    fix k :: nat assume "k < 15"
    then show "dt_le (end_iso (candidate day_start 60 k)) day_end"
      by (simp add: dt_le_def utc_candidate_end) (simp add: utc_def ds de off us_per_hour_def us_per_minute_def)
  next
    show "\<not> dt_le (end_iso (candidate day_start 60 15)) day_end"
      by (simp add: dt_le_def utc_candidate_end) (simp add: utc_def ds de off us_per_hour_def us_per_minute_def)
  next
    show "\<forall>k\<le>15. wall_in_range (wall (end_iso (candidate day_start 60 k)))"
    proof (intro allI impI)
      fix k :: nat assume "k \<le> 15"
      then have "wall_in_range (wall day_start + (int k * (30 * us_per_minute) + 60 * us_per_minute))"
        by (intro rng) (simp_all add: us_per_minute_def us_per_hour_def)
      then show "wall_in_range (wall (end_iso (candidate day_start 60 k)))"
        by (simp add: candidate_def add.assoc)
    qed
  next
    show "\<forall>k\<le>15. wall_in_range (wall (start_iso (candidate day_start 60 k)))"
    proof (intro allI impI)
      fix k :: nat assume "k \<le> 15"
      then have "wall_in_range (wall day_start + int k * (30 * us_per_minute))"
        by (intro rng) (simp_all add: us_per_minute_def us_per_hour_def)
      then show "wall_in_range (wall (start_iso (candidate day_start 60 k)))"
        by (simp add: candidate_def)
    qed
  qed
  have "suggest_available_slots api s (Naive w) 60 9 17
           = Some (Inr (map (candidate day_start 60) [0..<15]), s')"
    using assms(2-5) loop by (simp add: suggest_available_slots_def check_availability_def)
  moreover have "utc day_end = utc day_start + 8 * us_per_hour"
    by (simp add: utc_def ds de off)
  moreover have "start_iso (candidate day_start 60 0) = day_start"
    by (simp add: candidate_0)
  ultimately show ?thesis
    by (simp add: utc_candidate_start utc_candidate_end us_per_hour_def us_per_minute_def)
qed

theorem free_day_sweep_witness:
  "wall_in_range (738900 * us_per_day)
   \<and> localize (timezone (fixed_api (Inr []))) (Naive (738900 * us_per_day)) = Inr (at_hm 0 0)
   \<and> replace_hour (at_hm 0 0) 9 = Inr (at_hm 9 0)
   \<and> replace_hour (at_hm 0 0) 17 = Inr (at_hm 17 0)
   \<and> freebusy_query (fixed_api (Inr [])) 0 (Aware (at_hm 9 0)) (Aware (at_hm 17 0)) = (Inr [], 1)
   \<and> suggest_available_slots (fixed_api (Inr [])) 0 (Naive (738900 * us_per_day)) 60 9 17
       = Some (Inr (map (candidate (at_hm 9 0) 60) [0..<15]), 1)
   \<and> utc (end_iso (candidate (at_hm 9 0) 60 14)) = utc (at_hm 17 0)"
proof -
  have w: "wall_in_range (738900 * us_per_day)" by code_simp
  have l: "localize (timezone (fixed_api (Inr []))) (Naive (738900 * us_per_day)) = Inr (at_hm 0 0)"
    by code_simp
  have r1: "replace_hour (at_hm 0 0) 9 = Inr (at_hm 9 0)" by code_simp
  have r2: "replace_hour (at_hm 0 0) 17 = Inr (at_hm 17 0)" by code_simp
  have q: "freebusy_query (fixed_api (Inr [])) 0 (Aware (at_hm 9 0)) (Aware (at_hm 17 0))
             = (Inr [], 1)"
    by (simp add: fixed_api_def)
  from free_day_sweep [OF w l r1 r2 q] w l r1 r2 q show ?thesis by simp
qed

section \<open>Provider errors and the raw busy list\<close>

text \<open>
  Claim C7. When the provider's query fails, \<^verbatim>\<open>check_availability\<close> fails with the
  same exception, and so does \<^verbatim>\<open>suggest_available_slots\<close>: no slot list is returned,
  and the provider is left in the state after that one query, so it was not asked again.
\<close>

theorem provider_failure_propagates:
  assumes "freebusy_query api s start_date end_date = (Inl e, s1)"
    and "localize (timezone api) target_date = Inr target"
    and "replace_hour target start_hour = Inr day_start"
    and "replace_hour target end_hour = Inr day_end"
    and "freebusy_query api s (Aware day_start) (Aware day_end) = (Inl e', s2)"
  shows "check_availability api s start_date end_date = (Inl e, s1)
       \<and> suggest_available_slots api s target_date duration_minutes start_hour end_hour
           = Some (Inl e', s2)"
  using assms by (simp add: check_availability_def suggest_available_slots_def)

theorem provider_failure_propagates_witness:
  "freebusy_query (fixed_api (Inl HttpError)) 0 (Aware (at_hm 9 0)) (Aware (at_hm 17 0))
     = (Inl HttpError, 1)
   \<and> localize (timezone (fixed_api (Inl HttpError))) target_day = Inr (at_hm 0 0)
   \<and> replace_hour (at_hm 0 0) 9 = Inr (at_hm 9 0)
   \<and> replace_hour (at_hm 0 0) 17 = Inr (at_hm 17 0)
   \<and> check_availability (fixed_api (Inl HttpError)) 0 (Aware (at_hm 9 0)) (Aware (at_hm 17 0))
       = (Inl HttpError, 1)
   \<and> suggest_available_slots (fixed_api (Inl HttpError)) 0 target_day 60 9 17
       = Some (Inl HttpError, 1)"
proof -
  have q: "freebusy_query (fixed_api (Inl HttpError)) 0 (Aware (at_hm 9 0)) (Aware (at_hm 17 0))
     = (Inl HttpError, 1)"
    by (simp add: fixed_api_def)
  have l: "localize (timezone (fixed_api (Inl HttpError))) target_day = Inr (at_hm 0 0)"
    by code_simp
  have r1: "replace_hour (at_hm 0 0) 9 = Inr (at_hm 9 0)" by code_simp
  have r2: "replace_hour (at_hm 0 0) 17 = Inr (at_hm 17 0)" by code_simp
  from provider_failure_propagates [OF q l r1 r2 q, of 60] q l r1 r2
  show ?thesis by simp
qed

text \<open>
  C6 as stated fails: a provider answer that is out of order and holds a period outside
  the window is returned as it is.
\<close>

theorem check_availability_unsorted_counterexample:
  "check_availability (fixed_api (Inr [busy_hm 13 0 14 0, busy_hm 7 0 8 0])) 0
       (Aware (at_hm 9 0)) (Aware (at_hm 17 0))
     = (Inr [busy_hm 13 0 14 0, busy_hm 7 0 8 0], 1)
   \<and> \<not> sorted_by_start (fixed_api (Inr [busy_hm 13 0 14 0, busy_hm 7 0 8 0]))
         [busy_hm 13 0 14 0, busy_hm 7 0 8 0]
   \<and> busy_interval (fixed_api (Inr [busy_hm 13 0 14 0, busy_hm 7 0 8 0])) (busy_hm 7 0 8 0)
       = Inr (at_hm 7 0, at_hm 8 0)
   \<and> \<not> overlaps (at_hm 9 0) (at_hm 17 0) (at_hm 7 0) (at_hm 8 0)"
  by code_simp

text \<open>
  Claim C6, as amended. \<^verbatim>\<open>check_availability\<close> makes one query for the window and
  returns what the provider gave: the same busy periods in the same order, not converted,
  not filtered and not sorted, or the provider's exception.
\<close>

theorem check_availability_returns_raw:
  "check_availability api s start_date end_date = freebusy_query api s start_date end_date"
  by (simp add: check_availability_def split: prod.splits sum.splits)

section \<open>Parsing dates\<close>

text \<open>
  Claim C9. \<^verbatim>\<open>parse_natural_date\<close> tries the natural-language parser first: when it
  recognises the text and its time structure makes a date, that date is the result,
  whatever the strict parser would say. Only when it raises, recognises nothing (status
  0) or gives fields that make no date is the result that of the strict parser.
\<close>

theorem parser_chain_order:
  "(\<forall>time_struct parse_status d.
       cal_parse date_str = Inr (time_struct, parse_status) \<and> parse_status \<noteq> 0
       \<and> datetime_new (take 6 time_struct) = Inr d
       \<longrightarrow> parse_natural_date cal_parse parser_parse date_str = Inr d)
   \<and> ((\<exists>e. cal_parse date_str = Inl e)
        \<or> (\<exists>time_struct. cal_parse date_str = Inr (time_struct, 0))
        \<or> (\<exists>time_struct parse_status e. cal_parse date_str = Inr (time_struct, parse_status)
              \<and> datetime_new (take 6 time_struct) = Inl e)
       \<longrightarrow> parse_natural_date cal_parse parser_parse date_str = parser_parse date_str)"
  by (auto simp: parse_natural_date_def split: sum.splits)

theorem parser_chain_order_witness:
  "datetime_new (take 6 [2024, 1, 15, 9, 0, 0, 0, 15, - 1]) = Inr (Naive (wall (at_hm 9 0)))
   \<and> parse_natural_date (\<lambda>t. Inr ([2024, 1, 15, 9, 0, 0, 0, 15, - 1], 1))
        (\<lambda>t. Inr (Aware (at_hm 17 0))) ''tomorrow at 9am''
       = Inr (Naive (wall (at_hm 9 0)))
   \<and> parse_natural_date (\<lambda>t. Inr ([2024, 1, 15, 9, 0, 0, 0, 15, - 1], 0))
        (\<lambda>t. Inr (Aware (at_hm 17 0))) ''2024-01-15T17:00:00+00:00''
       = Inr (Aware (at_hm 17 0))"
proof -
  have d: "datetime_new (take 6 [2024, 1, 15, 9, 0, 0, 0, 15, - 1]) = Inr (Naive (wall (at_hm 9 0)))"
    by code_simp
  from parser_chain_order [of "\<lambda>t. Inr ([2024, 1, 15, 9, 0, 0, 0, 15, - 1], 1)" "''tomorrow at 9am''"
         "\<lambda>t. Inr (Aware (at_hm 17 0))"] d
  have a: "parse_natural_date (\<lambda>t. Inr ([2024, 1, 15, 9, 0, 0, 0, 15, - 1], 1))
        (\<lambda>t. Inr (Aware (at_hm 17 0))) ''tomorrow at 9am'' = Inr (Naive (wall (at_hm 9 0)))"
    by simp
  from parser_chain_order [of "\<lambda>t. Inr ([2024, 1, 15, 9, 0, 0, 0, 15, - 1], 0)"
         "''2024-01-15T17:00:00+00:00''" "\<lambda>t. Inr (Aware (at_hm 17 0))"]
  have b: "parse_natural_date (\<lambda>t. Inr ([2024, 1, 15, 9, 0, 0, 0, 15, - 1], 0))
        (\<lambda>t. Inr (Aware (at_hm 17 0))) ''2024-01-15T17:00:00+00:00'' = Inr (Aware (at_hm 17 0))"
    by simp
  from d a b show ?thesis by simp
qed

lemma datetime_new_naive: "datetime_new args = Inr d \<Longrightarrow> \<not> is_aware d"
  by (cases args rule: datetime_new.cases) (auto simp: Let_def split: if_splits)

lemma candidate_utcoffset:
  "utcoffset (start_iso (candidate ds d k)) = utcoffset ds"
  "utcoffset (end_iso (candidate ds d k)) = utcoffset ds"
  by (simp_all add: candidate_def)

lemma aware_eta: "\<lparr>wall = wall a, utcoffset = utcoffset a\<rparr> = (a::aware)"
  by (cases a) simp

lemma localize_Inr:
  "localize tz dt = Inr target \<Longrightarrow>
     \<exists>w. dt = Naive w \<and> wall target = w \<and> local_offset tz w = Inr (utcoffset target)"
  by (cases dt) (auto split: sum.splits)

text \<open>
  C8 as stated fails: for a text that the natural-language parser recognises,
  \<^verbatim>\<open>parse_natural_date\<close> returns \<^verbatim>\<open>datetime(*time_struct[:6])\<close>, a naive
  \<^verbatim>\<open>datetime\<close>.
\<close>

theorem naive_after_parsing_counterexample:
  "parse_natural_date (\<lambda>t. Inr ([2024, 1, 15, 9, 0, 0, 0, 15, - 1], 1))
        (\<lambda>t. Inl ValueError) ''tomorrow at 9am''
     = Inr (Naive 63840992400000000)
   \<and> \<not> is_aware (Naive 63840992400000000)"
  by code_simp

text \<open>
  Claim C8, as amended. The natural-language result of \<^verbatim>\<open>parse_natural_date\<close> is
  naive; the calendar zone is attached after parsing. \<^verbatim>\<open>suggest_available_slots\<close>
  localizes its target date: an aware target raises \<^verbatim>\<open>ValueError\<close> and a naive target
  that the zone cannot localize raises the zone's exception, both before any query; for
  a naive target that yields slots, every slot carries the offset the zone gives that
  target. \<^verbatim>\<open>book_event\<close> sends the provider a start and an end that are aware, a
  naive one localized and an aware one as it is; when a naive start or end cannot be
  localized, the zone's exception is raised and the provider is not called.
\<close>

theorem zone_attached_after_parsing:
  "(\<forall>time_struct parse_status d.
       cal_parse date_str = Inr (time_struct, parse_status) \<and> parse_status \<noteq> 0
       \<and> datetime_new (take 6 time_struct) = Inr d
       \<longrightarrow> parse_natural_date cal_parse parser_parse date_str = Inr d \<and> \<not> is_aware d)
   \<and> suggest_available_slots api s (Aware a) duration_minutes start_hour end_hour
       = Some (Inl ValueError, s)
   \<and> (\<forall>e. local_offset (timezone api) w = Inl e
         \<longrightarrow> suggest_available_slots api s (Naive w) duration_minutes start_hour end_hour
               = Some (Inl e, s))
   \<and> (\<forall>slots s'.
         suggest_available_slots api s (Naive w) duration_minutes start_hour end_hour
           = Some (Inr slots, s')
         \<longrightarrow> (\<exists>off. local_offset (timezone api) w = Inr off
                \<and> (\<forall>sl \<in> set slots.
                      utcoffset (start_iso sl) = off \<and> utcoffset (end_iso sl) = off)))
   \<and> (\<forall>st en.
         made_aware (timezone api) start_time st \<and> made_aware (timezone api) end_time en
         \<longrightarrow> book_event api s title start_time end_time description attendees
               = events_insert api s
                   \<lparr>body_summary = title, body_description = description,
                    body_start = st, body_end = en,
                    body_attendees = (case attendees of None \<Rightarrow> None | Some [] \<Rightarrow> None
                                      | Some emails \<Rightarrow> Some emails)\<rparr>)
   \<and> (\<forall>w' e.
         start_time = Naive w' \<and> local_offset (timezone api) w' = Inl e
         \<longrightarrow> book_event api s title start_time end_time description attendees = (Inl e, s))
   \<and> (\<forall>st w' e.
         made_aware (timezone api) start_time st
         \<and> end_time = Naive w' \<and> local_offset (timezone api) w' = Inl e
         \<longrightarrow> book_event api s title start_time end_time description attendees = (Inl e, s))"
proof (intro conjI allI impI)
  fix time_struct parse_status d
  assume h: "cal_parse date_str = Inr (time_struct, parse_status) \<and> parse_status \<noteq> 0
       \<and> datetime_new (take 6 time_struct) = Inr d"
  then show "parse_natural_date cal_parse parser_parse date_str = Inr d"
    by (simp add: parse_natural_date_def)
  from h show "\<not> is_aware d" by (blast dest: datetime_new_naive)
next
  show "suggest_available_slots api s (Aware a) duration_minutes start_hour end_hour
          = Some (Inl ValueError, s)"
    by (simp add: suggest_available_slots_def)
next
  fix e assume "local_offset (timezone api) w = Inl e"
  then show "suggest_available_slots api s (Naive w) duration_minutes start_hour end_hour
               = Some (Inl e, s)"
    by (simp add: suggest_available_slots_def)
next
  fix slots s'
  assume h: "suggest_available_slots api s (Naive w) duration_minutes start_hour end_hour
           = Some (Inr slots, s')"
  from h obtain target day_start day_end busy_periods where
    t: "localize (timezone api) (Naive w) = Inr target"
    and ds: "replace_hour target start_hour = Inr day_start"
    and loop: "slot_loop api busy_periods duration_minutes day_end day_start [] = Some (Inr slots)"
    by (rule suggest_Inr)
  from localize_Inr [OF t]
  have lo: "local_offset (timezone api) w = Inr (utcoffset target)" by simp
  from replace_hour_Inr [OF ds] have off: "utcoffset day_start = utcoffset target" by simp
  have "utcoffset (start_iso sl) = utcoffset target \<and> utcoffset (end_iso sl) = utcoffset target"
    if "sl \<in> set slots" for sl
  proof -
    from slot_is_candidate [OF loop that] obtain k where
      "sl = candidate day_start duration_minutes k" by blast
    with off show ?thesis by (simp add: candidate_utcoffset)
  qed
  with lo show "\<exists>off. local_offset (timezone api) w = Inr off
                \<and> (\<forall>sl \<in> set slots.
                      utcoffset (start_iso sl) = off \<and> utcoffset (end_iso sl) = off)"
    by blast
next
  fix st en
  assume "made_aware (timezone api) start_time st \<and> made_aware (timezone api) end_time en"
  then show "book_event api s title start_time end_time description attendees
               = events_insert api s
                   \<lparr>body_summary = title, body_description = description,
                    body_start = st, body_end = en,
                    body_attendees = (case attendees of None \<Rightarrow> None | Some [] \<Rightarrow> None
                                      | Some emails \<Rightarrow> Some emails)\<rparr>"
    by (cases start_time; cases end_time) (auto simp: book_event_def made_aware_def aware_eta)
next
  fix w' e
  assume "start_time = Naive w' \<and> local_offset (timezone api) w' = Inl e"
  then show "book_event api s title start_time end_time description attendees = (Inl e, s)"
    by (simp add: book_event_def)
next
  fix st w' e
  assume "made_aware (timezone api) start_time st
         \<and> end_time = Naive w' \<and> local_offset (timezone api) w' = Inl e"
  then show "book_event api s title start_time end_time description attendees = (Inl e, s)"
    by (cases start_time; cases end_time) (auto simp: book_event_def made_aware_def aware_eta)
qed

theorem zone_attached_after_parsing_witness:
  "datetime_new (take 6 [2024, 1, 15, 0, 0, 0, 0, 15, - 1]) = Inr target_day
   \<and> parse_natural_date (\<lambda>t. Inr ([2024, 1, 15, 0, 0, 0, 0, 15, - 1], 1))
        (\<lambda>t. Inl ValueError) ''today'' = Inr target_day
   \<and> \<not> is_aware target_day
   \<and> local_offset (timezone west_api) last_hour = Inl OverflowError
   \<and> suggest_available_slots west_api 0 (Naive last_hour) 60 9 17 = Some (Inl OverflowError, 0)
   \<and> suggest_available_slots (fixed_api (Inr [busy_hm 9 0 10 0])) 0 (Naive (738900 * us_per_day))
        60 9 11
       = Some (Inr [candidate (at_hm 9 0) 60 2], 1)
   \<and> utcoffset (start_iso (candidate (at_hm 9 0) 60 2)) = 0
   \<and> utcoffset (end_iso (candidate (at_hm 9 0) 60 2)) = 0
   \<and> made_aware (timezone (fixed_api (Inr []))) target_day (at_hm 0 0)
   \<and> made_aware (timezone (fixed_api (Inr []))) (Aware (at_hm 10 0)) (at_hm 10 0)
   \<and> book_event (fixed_api (Inr [])) 0 ''Standup'' target_day (Aware (at_hm 10 0)) [] None
       = events_insert (fixed_api (Inr [])) 0
           \<lparr>body_summary = ''Standup'', body_description = [],
            body_start = at_hm 0 0, body_end = at_hm 10 0, body_attendees = None\<rparr>
   \<and> book_event west_api 0 ''Standup'' (Naive last_hour) (Aware (at_hm 10 0)) [] None
       = (Inl OverflowError, 0)
   \<and> made_aware (timezone west_api) (Aware (at_hm 9 0)) (at_hm 9 0)
   \<and> book_event west_api 0 ''Standup'' (Aware (at_hm 9 0)) (Naive last_hour) [] None
       = (Inl OverflowError, 0)"
proof -
  have d: "datetime_new (take 6 [2024, 1, 15, 0, 0, 0, 0, 15, - 1]) = Inr target_day"
    by code_simp
  have lo: "local_offset (timezone west_api) last_hour = Inl OverflowError"
    by code_simp
  have h: "suggest_available_slots (fixed_api (Inr [busy_hm 9 0 10 0])) 0
             (Naive (738900 * us_per_day)) 60 9 11
       = Some (Inr [candidate (at_hm 9 0) 60 2], 1)"
    by code_simp
  have u: "local_offset (timezone (fixed_api (Inr [busy_hm 9 0 10 0]))) (738900 * us_per_day)
             = Inr 0"
    by (simp add: fixed_api_def utc_zone_def)
  have m1: "made_aware (timezone (fixed_api (Inr []))) target_day (at_hm 0 0)"
    by code_simp
  have m2: "made_aware (timezone (fixed_api (Inr []))) (Aware (at_hm 10 0)) (at_hm 10 0)"
    by (simp add: made_aware_def)
  have m3: "made_aware (timezone west_api) (Aware (at_hm 9 0)) (at_hm 9 0)"
    by (simp add: made_aware_def)
  from zone_attached_after_parsing
    [where cal_parse = "\<lambda>t. Inr ([2024, 1, 15, 0, 0, 0, 0, 15, - 1], 1)"
       and date_str = "''today''" and parser_parse = "\<lambda>t. Inl ValueError"
       and api = "fixed_api (Inr [])" and s = 0 and a = "at_hm 9 0"
       and duration_minutes = 60 and start_hour = 9 and end_hour = 17
       and w = "738900 * us_per_day" and start_time = target_day
       and end_time = "Aware (at_hm 10 0)" and title = "''Standup''" and description = "[]"
       and attendees = None] d
  have a: "parse_natural_date (\<lambda>t. Inr ([2024, 1, 15, 0, 0, 0, 0, 15, - 1], 1))
        (\<lambda>t. Inl ValueError) ''today'' = Inr target_day \<and> \<not> is_aware target_day"
    by simp
  from zone_attached_after_parsing
    [where cal_parse = "\<lambda>t. Inr ([2024, 1, 15, 0, 0, 0, 0, 15, - 1], 1)"
       and date_str = "''today''" and parser_parse = "\<lambda>t. Inl ValueError"
       and api = west_api and s = 0 and a = "at_hm 9 0" and duration_minutes = 60
       and start_hour = 9 and end_hour = 17 and w = last_hour and start_time = target_day
       and end_time = "Aware (at_hm 10 0)" and title = "''Standup''" and description = "[]"
       and attendees = None] lo
  have b: "suggest_available_slots west_api 0 (Naive last_hour) 60 9 17
             = Some (Inl OverflowError, 0)"
    by blast
  from zone_attached_after_parsing
    [where cal_parse = "\<lambda>t. Inr ([2024, 1, 15, 0, 0, 0, 0, 15, - 1], 1)"
       and date_str = "''today''" and parser_parse = "\<lambda>t. Inl ValueError"
       and api = "fixed_api (Inr [busy_hm 9 0 10 0])" and s = 0 and a = "at_hm 9 0"
       and duration_minutes = 60 and start_hour = 9 and end_hour = 11
       and w = "738900 * us_per_day" and start_time = target_day
       and end_time = "Aware (at_hm 10 0)" and title = "''Standup''" and description = "[]"
       and attendees = None] h u
  have c: "utcoffset (start_iso (candidate (at_hm 9 0) 60 2)) = 0
         \<and> utcoffset (end_iso (candidate (at_hm 9 0) 60 2)) = 0"
    by auto
  from zone_attached_after_parsing
    [where cal_parse = "\<lambda>t. Inr ([2024, 1, 15, 0, 0, 0, 0, 15, - 1], 1)"
       and date_str = "''today''" and parser_parse = "\<lambda>t. Inl ValueError"
       and api = "fixed_api (Inr [])" and s = 0 and a = "at_hm 9 0"
       and duration_minutes = 60 and start_hour = 9 and end_hour = 17
       and w = "738900 * us_per_day" and start_time = target_day
       and end_time = "Aware (at_hm 10 0)" and title = "''Standup''" and description = "[]"
       and attendees = None] m1 m2
  have e: "book_event (fixed_api (Inr [])) 0 ''Standup'' target_day (Aware (at_hm 10 0)) [] None
       = events_insert (fixed_api (Inr [])) 0
           \<lparr>body_summary = ''Standup'', body_description = [],
            body_start = at_hm 0 0, body_end = at_hm 10 0, body_attendees = None\<rparr>"
    by auto
  from zone_attached_after_parsing
    [where cal_parse = "\<lambda>t. Inr ([2024, 1, 15, 0, 0, 0, 0, 15, - 1], 1)"
       and date_str = "''today''" and parser_parse = "\<lambda>t. Inl ValueError"
       and api = west_api and s = 0 and a = "at_hm 9 0" and duration_minutes = 60
       and start_hour = 9 and end_hour = 17 and w = last_hour
       and start_time = "Naive last_hour" and end_time = "Aware (at_hm 10 0)"
       and title = "''Standup''" and description = "[]" and attendees = None] lo
  have f: "book_event west_api 0 ''Standup'' (Naive last_hour) (Aware (at_hm 10 0)) [] None
       = (Inl OverflowError, 0)"
    by blast
  from zone_attached_after_parsing
    [where cal_parse = "\<lambda>t. Inr ([2024, 1, 15, 0, 0, 0, 0, 15, - 1], 1)"
       and date_str = "''today''" and parser_parse = "\<lambda>t. Inl ValueError"
       and api = west_api and s = 0 and a = "at_hm 9 0" and duration_minutes = 60
       and start_hour = 9 and end_hour = 17 and w = last_hour
       and start_time = "Aware (at_hm 9 0)" and end_time = "Naive last_hour"
       and title = "''Standup''" and description = "[]" and attendees = None] lo m3
  have g: "book_event west_api 0 ''Standup'' (Aware (at_hm 9 0)) (Naive last_hour) [] None
       = (Inl OverflowError, 0)"
    by blast
  from d a lo b h c m1 m2 e f m3 g show ?thesis by simp
qed

end
